theory Spec2Isabelle
  imports Main "HOL-Library.Word" "HOL-Library.Signed_Division"
begin

unbundle bit_operations_syntax

section \<open>Byte buffers and results\<close>

text \<open>
  A Go \<open>[]byte\<close> is a list of 8-bit words. Go's \<open>int\<close> is the 64-bit signed integer of
  the platforms the program is built for; it is modelled by \<open>int\<close>. Every \<open>int\<close> computed
  by the decoder comes from 8-, 16- and 32-bit fields and stays below \<open>2 ^ 63\<close> in
  absolute value (the largest is \<open>height * rowSize\<close> with \<open>height < 2 ^ 30\<close> and
  \<open>rowSize < 2 ^ 33\<close>), so no 64-bit wrap-around is possible. The fixed-width fields
  \<open>uint8\<close>, \<open>uint16\<close> and \<open>uint32\<close> are words, and arithmetic on them wraps.
\<close>

type_synonym byte = "8 word"

section \<open>Format detection\<close>

datatype ImageFormat =
  FormatUnknown | FormatPNG | FormatJPEG | FormatWebP | FormatBMP | FormatICO

definition magicPNG :: "byte list" where
  "magicPNG = [0x89, 0x50, 0x4E, 0x47, 0x0D, 0x0A, 0x1A, 0x0A]"

definition magicJPEG :: "byte list" where
  "magicJPEG = [0xFF, 0xD8, 0xFF]"

definition magicBMP :: "byte list" where
  "magicBMP = [0x42, 0x4D]"

definition magicICO :: "byte list" where
  "magicICO = [0x00, 0x00, 0x01, 0x00]"

definition magicRIFF :: "byte list" where
  "magicRIFF = [0x52, 0x49, 0x46, 0x46]"

definition magicWEBP :: "byte list" where
  "magicWEBP = [0x57, 0x45, 0x42, 0x50]"

text \<open>\<open>bytes.HasPrefix(s, p)\<close> is \<open>len(s) >= len(p) && bytes.Equal(s[:len(p)], p)\<close>.\<close>

definition HasPrefix :: "byte list \<Rightarrow> byte list \<Rightarrow> bool" where
  "HasPrefix s p \<longleftrightarrow> length p \<le> length s \<and> take (length p) s = p"

text \<open>
  \<open>detectFormat\<close>: the slice \<open>data[8:12]\<close> is only evaluated after \<open>len(data) >= 12\<close>
  (Go's \<open>&&\<close> is short-circuit), so it is \<open>take 4 (drop 8 data)\<close> there.
\<close>

definition detectFormat :: "byte list \<Rightarrow> ImageFormat" where
  "detectFormat data =
     (if length data < 2 then FormatUnknown
      else if 8 \<le> length data \<and> HasPrefix data magicPNG then FormatPNG
      else if 3 \<le> length data \<and> HasPrefix data magicJPEG then FormatJPEG
      else if 12 \<le> length data \<and> HasPrefix data magicRIFF
              \<and> take 4 (drop 8 data) = magicWEBP then FormatWebP
      else if 4 \<le> length data \<and> HasPrefix data magicICO then FormatICO
      else if HasPrefix data magicBMP then FormatBMP
      else FormatUnknown)"

section \<open>Errors, panics and checked reads\<close>

text \<open>
  One constructor for each \<open>fmt.Errorf\<close> of the decoder, named after the error kind it
  stands for; the argument is the value the message prints.
\<close>

datatype error =
    HeaderTooShort                  \<comment> \<open>invalid ICO file: too short for header\<close>
  | ReservedNotZero "16 word"       \<comment> \<open>invalid ICO file: reserved field must be 0\<close>
  | TypeNotICO "16 word"            \<comment> \<open>invalid ICO file: type must be 1 for ICO\<close>
  | NoImages                        \<comment> \<open>invalid ICO file: no images in file\<close>
  | TruncatedDirectory              \<comment> \<open>invalid ICO file: too short for directory entries\<close>
  | NoValidEntries                  \<comment> \<open>invalid ICO file: no valid image entries found\<close>
  | TruncatedEntry                  \<comment> \<open>invalid ICO image data: too short\<close>
  | EmbeddedDecodeFailed            \<comment> \<open>failed to decode PNG in ICO\<close>
  | DibTooShort                     \<comment> \<open>invalid ICO BMP data: too short for header\<close>
  | UnsupportedDibHeader "32 word"  \<comment> \<open>invalid ICO BMP: unsupported header size\<close>
  | UnsupportedCompression "32 word" \<comment> \<open>invalid ICO BMP: compressed BMP not supported\<close>
  | TruncatedPalette                \<comment> \<open>invalid ICO BMP: too short for palette\<close>
  | UnsupportedBitDepth "16 word"   \<comment> \<open>invalid ICO BMP: unsupported bit depth\<close>

text \<open>The four header failures are the error kind \<open>MalformedHeader\<close>.\<close>

fun MalformedHeader :: "error \<Rightarrow> bool" where
  "MalformedHeader HeaderTooShort = True"
| "MalformedHeader (ReservedNotZero r) = True"
| "MalformedHeader (TypeNotICO t) = True"
| "MalformedHeader NoImages = True"
| "MalformedHeader e = False"

text \<open>
  A call returns a value, returns an error, or panics (a run-time panic of Go: an index or
  a slice bound out of range).
\<close>

datatype 'a outcome = Ok 'a | Err error | Panic

fun bindO :: "'a outcome \<Rightarrow> ('a \<Rightarrow> 'b outcome) \<Rightarrow> 'b outcome" where
  "bindO (Ok x) f = f x"
| "bindO (Err e) f = Err e"
| "bindO Panic f = Panic"

text \<open>
  \<open>s[i]\<close>, \<open>s[lo:hi]\<close> and \<open>s[lo:]\<close> with Go's bounds checks. A buffer's capacity is taken to
  be its length, so that a slice expression is in range exactly when
  \<open>0 \<le> lo \<le> hi \<le> len(s)\<close>.
\<close>

definition index :: "byte list \<Rightarrow> int \<Rightarrow> byte outcome" where
  "index s i = (if 0 \<le> i \<and> i < int (length s) then Ok (s ! nat i) else Panic)"

definition slice :: "byte list \<Rightarrow> int \<Rightarrow> int \<Rightarrow> byte list outcome" where
  "slice s lo hi =
     (if 0 \<le> lo \<and> lo \<le> hi \<and> hi \<le> int (length s)
      then Ok (take (nat (hi - lo)) (drop (nat lo) s)) else Panic)"

definition sliceFrom :: "byte list \<Rightarrow> int \<Rightarrow> byte list outcome" where
  "sliceFrom s lo = slice s lo (int (length s))"

text \<open>\<open>binary.LittleEndian.Uint16\<close> and \<open>Uint32\<close>; both index their last byte first.\<close>

definition Uint16 :: "byte list \<Rightarrow> 16 word outcome" where
  "Uint16 b =
     (if length b < 2 then Panic
      else Ok (ucast (b ! 0) OR push_bit 8 (ucast (b ! 1))))"

definition Uint32 :: "byte list \<Rightarrow> 32 word outcome" where
  "Uint32 b =
     (if length b < 4 then Panic
      else Ok (ucast (b ! 0) OR push_bit 8 (ucast (b ! 1))
               OR push_bit 16 (ucast (b ! 2)) OR push_bit 24 (ucast (b ! 3))))"

text \<open>The two loop shapes of the decoder, over the values of the loop counter.\<close>

primrec forEach :: "nat list \<Rightarrow> (nat \<Rightarrow> 'a \<Rightarrow> 'a outcome) \<Rightarrow> 'a \<Rightarrow> 'a outcome" where
  "forEach [] body s = Ok s"
| "forEach (i # rest) body s = bindO (body i s) (forEach rest body)"

text \<open>A loop whose body starts with \<open>if brk { break }\<close>.\<close>

primrec forEachBreak ::
  "nat list \<Rightarrow> (nat \<Rightarrow> bool) \<Rightarrow> (nat \<Rightarrow> 'a \<Rightarrow> 'a outcome) \<Rightarrow> 'a \<Rightarrow> 'a outcome" where
  "forEachBreak [] brk body s = Ok s"
| "forEachBreak (i # rest) brk body s =
     (if brk i then Ok s else bindO (body i s) (forEachBreak rest brk body))"

section \<open>Images\<close>

text \<open>
  Go's \<open>image.RGBA\<close>, \<open>image.Rect\<close>, \<open>image.NewRGBA\<close> and \<open>SetRGBA\<close> belong to the
  standard library. An image is its bounds and its pixels; \<open>image.Rect\<close> orders the
  corners; \<open>SetRGBA\<close> ignores a point outside the bounds.

  \<open>image.NewRGBA(r)\<close> computes the length of the pixel buffer with \<open>mul3NonNeg\<close>, which
  returns \<open>-1\<close> when the product \<open>4 * r.Dx() * r.Dy()\<close> does not fit a 64-bit \<open>int\<close>, and
  panics on that (\<open>Rectangle has huge or negative dimensions\<close>); then \<open>make\<close> panics
  (\<open>makeslice: len out of range\<close>) when the length is above the runtime's \<open>maxAlloc\<close>,
  which is \<open>2 ^ 48\<close> bytes on the 64-bit platforms. Otherwise the new image is
  transparent black everywhere. A request below that limit which the machine cannot
  serve aborts the process; that depends on the machine and is not part of this model.
\<close>

datatype RGBA = RGBA byte byte byte byte  \<comment> \<open>R, G, B, A\<close>

record Rectangle =
  MinX :: int
  MinY :: int
  MaxX :: int
  MaxY :: int

record image =
  Bounds :: Rectangle
  Pix :: "int \<times> int \<Rightarrow> RGBA"

definition Rect :: "int \<Rightarrow> int \<Rightarrow> int \<Rightarrow> int \<Rightarrow> Rectangle" where
  "Rect x0 y0 x1 y1 =
     \<lparr>MinX = min x0 x1, MinY = min y0 y1, MaxX = max x0 x1, MaxY = max y0 y1\<rparr>"

definition Dx :: "Rectangle \<Rightarrow> int" where
  "Dx r = MaxX r - MinX r"

definition Dy :: "Rectangle \<Rightarrow> int" where
  "Dy r = MaxY r - MinY r"

text \<open>
  \<open>mul3NonNeg\<close> multiplies in 64-bit words and gives up as soon as a product leaves
  them, and at last when the result is not a non-negative \<open>int\<close>.
\<close>

definition mul3NonNeg :: "int \<Rightarrow> int \<Rightarrow> int \<Rightarrow> int" where
  "mul3NonNeg x y z =
     (if x < 0 \<or> y < 0 \<or> z < 0 then - 1
      else if 2 ^ 64 \<le> x * y then - 1
      else if 2 ^ 64 \<le> x * y * z then - 1
      else if 2 ^ 63 \<le> x * y * z then - 1
      else x * y * z)"

definition maxAlloc :: int where
  "maxAlloc = 2 ^ 48"

text \<open>The image that \<open>image.NewRGBA\<close> returns when it returns: a zeroed pixel buffer.\<close>

definition blankRGBA :: "Rectangle \<Rightarrow> image" where
  "blankRGBA r = \<lparr>Bounds = r, Pix = (\<lambda>p. RGBA 0 0 0 0)\<rparr>"

definition NewRGBA :: "Rectangle \<Rightarrow> image outcome" where
  "NewRGBA r =
     (let totalLength = mul3NonNeg 4 (Dx r) (Dy r) in
      if totalLength < 0 then Panic
      else if maxAlloc < totalLength then Panic
      else Ok (blankRGBA r))"

definition SetRGBA :: "image \<Rightarrow> int \<Rightarrow> int \<Rightarrow> RGBA \<Rightarrow> image" where
  "SetRGBA img x y c =
     (if MinX (Bounds img) \<le> x \<and> x < MaxX (Bounds img)
         \<and> MinY (Bounds img) \<le> y \<and> y < MaxY (Bounds img)
      then img\<lparr>Pix := (Pix img)((x, y) := c)\<rparr> else img)"

section \<open>The ICO directory\<close>

record icoEntry =
  Width :: byte
  Height :: byte
  ColorCount :: byte
  Reserved :: byte
  Planes :: "16 word"
  BitCount :: "16 word"
  Size :: "32 word"
  Offset :: "32 word"

definition getActualWidth :: "icoEntry \<Rightarrow> int" where
  "getActualWidth e = (if Width e = 0 then 256 else uint (Width e))"

definition getActualHeight :: "icoEntry \<Rightarrow> int" where
  "getActualHeight e = (if Height e = 0 then 256 else uint (Height e))"

definition resolution :: "icoEntry \<Rightarrow> int" where
  "resolution e = getActualWidth e * getActualHeight e"

definition parseICOEntry :: "byte list \<Rightarrow> icoEntry outcome" where
  "parseICOEntry d =
     bindO (index d 0) (\<lambda>w.
     bindO (index d 1) (\<lambda>h.
     bindO (index d 2) (\<lambda>cc.
     bindO (index d 3) (\<lambda>r.
     bindO (bindO (slice d 4 6) Uint16) (\<lambda>pl.
     bindO (bindO (slice d 6 8) Uint16) (\<lambda>bc.
     bindO (bindO (slice d 8 12) Uint32) (\<lambda>sz.
     bindO (bindO (slice d 12 16) Uint32) (\<lambda>off.
       Ok \<lparr>Width = w, Height = h, ColorCount = cc, Reserved = r,
           Planes = pl, BitCount = bc, Size = sz, Offset = off\<rparr>))))))))"

section \<open>The bit-plane decoders\<close>

text \<open>
  The statement shared by the three palette-indexed decoders: look the pixel value up in
  the palette (B, G, R, unused) and set the pixel, or leave it when the palette is too
  short for that index.
\<close>

definition setPalettePixel ::
  "byte list \<Rightarrow> byte \<Rightarrow> int \<Rightarrow> int \<Rightarrow> image \<Rightarrow> image outcome" where
  "setPalettePixel palette pixelValue x y img =
     (let paletteIdx = uint pixelValue * 4 in
      if paletteIdx + 3 < int (length palette) then
        bindO (index palette (paletteIdx + 2)) (\<lambda>r.
        bindO (index palette (paletteIdx + 1)) (\<lambda>g.
        bindO (index palette paletteIdx) (\<lambda>b.
          Ok (SetRGBA img x y (RGBA r g b 255)))))
      else Ok img)"

text \<open>
  Go's \<open>/\<close> on \<open>int\<close> truncates towards zero: \<open>sdiv\<close>. The loop counters \<open>x\<close> and \<open>y\<close>
  run over \<open>0, 1, ...\<close> below \<open>width\<close> and \<open>height\<close>; they are never negative, so that
  \<open>x / 8\<close> and \<open>x % 8\<close> are \<open>div\<close> and \<open>mod\<close> on \<open>nat\<close>.
\<close>

definition decodeICOBMP1 ::
  "image \<Rightarrow> byte list \<Rightarrow> int \<Rightarrow> int \<Rightarrow> byte list \<Rightarrow> image outcome" where
  "decodeICOBMP1 img data width height palette =
     (let rowSize = ((width + 31) sdiv 32) * 4 in
      forEachBreak [0..<nat height]
        (\<lambda>y. (height - 1 - int y) * rowSize + rowSize > int (length data))
        (\<lambda>y. forEach [0..<nat width]
           (\<lambda>x img.
              let rowOffset = (height - 1 - int y) * rowSize;
                  byteIdx = x div 8;
                  bitIdx = 7 - (x mod 8)
              in bindO (index data (rowOffset + int byteIdx)) (\<lambda>b.
                   setPalettePixel palette (drop_bit bitIdx b AND 1) (int x) (int y) img)))
        img)"

definition decodeICOBMP4 ::
  "image \<Rightarrow> byte list \<Rightarrow> int \<Rightarrow> int \<Rightarrow> byte list \<Rightarrow> image outcome" where
  "decodeICOBMP4 img data width height palette =
     (let rowSize = ((width * 4 + 31) sdiv 32) * 4 in
      forEachBreak [0..<nat height]
        (\<lambda>y. (height - 1 - int y) * rowSize + rowSize > int (length data))
        (\<lambda>y. forEach [0..<nat width]
           (\<lambda>x img.
              let rowOffset = (height - 1 - int y) * rowSize;
                  byteIdx = x div 2
              in bindO (index data (rowOffset + int byteIdx)) (\<lambda>b.
                   setPalettePixel palette
                     (if x mod 2 = 0 then drop_bit 4 b AND 0x0F else b AND 0x0F)
                     (int x) (int y) img)))
        img)"

definition decodeICOBMP8 ::
  "image \<Rightarrow> byte list \<Rightarrow> int \<Rightarrow> int \<Rightarrow> byte list \<Rightarrow> image outcome" where
  "decodeICOBMP8 img data width height palette =
     (let rowSize = ((width + 3) sdiv 4) * 4 in
      forEachBreak [0..<nat height]
        (\<lambda>y. (height - 1 - int y) * rowSize + width > int (length data))
        (\<lambda>y. forEach [0..<nat width]
           (\<lambda>x img.
              let rowOffset = (height - 1 - int y) * rowSize
              in bindO (index data (rowOffset + int x)) (\<lambda>pixelValue.
                   setPalettePixel palette pixelValue (int x) (int y) img)))
        img)"

definition decodeICOBMP24 ::
  "image \<Rightarrow> byte list \<Rightarrow> int \<Rightarrow> int \<Rightarrow> image outcome" where
  "decodeICOBMP24 img data width height =
     (let rowSize = ((width * 3 + 3) sdiv 4) * 4 in
      forEachBreak [0..<nat height]
        (\<lambda>y. (height - 1 - int y) * rowSize + width * 3 > int (length data))
        (\<lambda>y. forEach [0..<nat width]
           (\<lambda>x img.
              let rowOffset = (height - 1 - int y) * rowSize;
                  pixelOffset = rowOffset + int x * 3
              in bindO (index data pixelOffset) (\<lambda>b.
                 bindO (index data (pixelOffset + 1)) (\<lambda>g.
                 bindO (index data (pixelOffset + 2)) (\<lambda>r.
                   Ok (SetRGBA img (int x) (int y) (RGBA r g b 255)))))))
        img)"

definition decodeICOBMP32 ::
  "image \<Rightarrow> byte list \<Rightarrow> int \<Rightarrow> int \<Rightarrow> image outcome" where
  "decodeICOBMP32 img data width height =
     (let rowSize = width * 4 in
      forEachBreak [0..<nat height]
        (\<lambda>y. (height - 1 - int y) * rowSize + width * 4 > int (length data))
        (\<lambda>y. forEach [0..<nat width]
           (\<lambda>x img.
              let rowOffset = (height - 1 - int y) * rowSize;
                  pixelOffset = rowOffset + int x * 4
              in bindO (index data pixelOffset) (\<lambda>b.
                 bindO (index data (pixelOffset + 1)) (\<lambda>g.
                 bindO (index data (pixelOffset + 2)) (\<lambda>r.
                 bindO (index data (pixelOffset + 3)) (\<lambda>a.
                   Ok (SetRGBA img (int x) (int y) (RGBA r g b a))))))))
        img)"

section \<open>The embedded bitmap and the container\<close>

text \<open>
  The number of palette entries (\<open>1 << bitCount\<close>, or the entry's \<open>ColorCount\<close> when
  that is smaller and not zero), then the palette of an indexed bitmap and the offset of
  the pixel data behind it; a deeper bitmap has no palette (a nil slice) and its pixel
  data starts at \<open>headerSize\<close>.
\<close>

definition paletteSize :: "icoEntry \<Rightarrow> 16 word \<Rightarrow> int" where
  "paletteSize entry bitCount =
     (let paletteSize = 2 ^ unat bitCount in
      if ColorCount entry > 0 \<and> uint (ColorCount entry) < paletteSize
      then uint (ColorCount entry) else paletteSize)"

definition readPalette ::
  "byte list \<Rightarrow> icoEntry \<Rightarrow> 16 word \<Rightarrow> int \<Rightarrow> (byte list \<times> int) outcome" where
  "readPalette data entry bitCount pixelOffset =
     (if bitCount \<le> 8 then
        let paletteBytes = paletteSize entry bitCount * 4
        in if int (length data) < pixelOffset + paletteBytes then Err TruncatedPalette
           else bindO (slice data pixelOffset (pixelOffset + paletteBytes)) (\<lambda>palette.
                  Ok (palette, pixelOffset + paletteBytes))
      else Ok ([], pixelOffset))"

text \<open>
  The \<open>switch bitCount\<close> of \<open>decodeICOBMP\<close>: each supported depth slices
  \<open>data[pixelOffset:]\<close> and calls its row decoder; the default case is the error.
\<close>

definition decodeByDepth ::
  "16 word \<Rightarrow> image \<Rightarrow> byte list \<Rightarrow> int \<Rightarrow> int \<Rightarrow> int \<Rightarrow> byte list \<Rightarrow> image outcome" where
  "decodeByDepth bitCount img data pixelOffset width height palette =
     (if bitCount = 1 then
        bindO (sliceFrom data pixelOffset) (\<lambda>d. decodeICOBMP1 img d width height palette)
      else if bitCount = 4 then
        bindO (sliceFrom data pixelOffset) (\<lambda>d. decodeICOBMP4 img d width height palette)
      else if bitCount = 8 then
        bindO (sliceFrom data pixelOffset) (\<lambda>d. decodeICOBMP8 img d width height palette)
      else if bitCount = 24 then
        bindO (sliceFrom data pixelOffset) (\<lambda>d. decodeICOBMP24 img d width height)
      else if bitCount = 32 then
        bindO (sliceFrom data pixelOffset) (\<lambda>d. decodeICOBMP32 img d width height)
      else Err (UnsupportedBitDepth bitCount))"

definition decodeICOBMP :: "byte list \<Rightarrow> icoEntry \<Rightarrow> image outcome" where
  "decodeICOBMP data entry =
     (if length data < 40 then Err DibTooShort
      else
        bindO (bindO (slice data 0 4) Uint32) (\<lambda>headerSize.
        if headerSize < 40 then Err (UnsupportedDibHeader headerSize)
        else
          bindO (bindO (slice data 4 8) Uint32) (\<lambda>w32.
          bindO (bindO (slice data 8 12) Uint32) (\<lambda>h32.
          bindO (bindO (slice data 14 16) Uint16) (\<lambda>bitCount.
          bindO (bindO (slice data 16 20) Uint32) (\<lambda>compression.
            let width = sint w32;
                height = sint h32 sdiv 2;
                width = (if width = 0 then getActualWidth entry else width);
                height = (if height = 0 then getActualHeight entry else height)
            in if compression \<noteq> 0 then Err (UnsupportedCompression compression)
               else
                 bindO (readPalette data entry bitCount (uint headerSize))
                   (\<lambda>(palette, pixelOffset).
                      bindO (NewRGBA (Rect 0 0 width height)) (\<lambda>img.
                        decodeByDepth bitCount img data pixelOffset width height
                          palette))))))))"

text \<open>
  The PNG decoder of the standard library (\<open>image.Decode\<close>) is a parameter: \<open>None\<close>
  when it returns an error.
\<close>

definition decodeICOImage ::
  "(byte list \<Rightarrow> image option) \<Rightarrow> byte list \<Rightarrow> icoEntry \<Rightarrow> image outcome" where
  "decodeICOImage png data entry =
     (if length data < 4 then Err TruncatedEntry
      else if HasPrefix data magicPNG then
        (case png data of None \<Rightarrow> Err EmbeddedDecodeFailed | Some img \<Rightarrow> Ok img)
      else decodeICOBMP data entry)"

text \<open>
  The body of the directory loop of \<open>decodeICO\<close>; the state is \<open>bestEntry\<close> (nil is
  \<open>None\<close>) and \<open>bestResolution\<close>.
\<close>

definition scanEntry ::
  "byte list \<Rightarrow> nat \<Rightarrow> icoEntry option \<times> int \<Rightarrow> (icoEntry option \<times> int) outcome" where
  "scanEntry data i best =
     (let offset = 6 + int i * 16 in
      bindO (bindO (slice data offset (offset + 16)) parseICOEntry) (\<lambda>entry.
        if Offset entry = 0 \<or> Size entry = 0 then Ok best
        else if uint (Offset entry) + uint (Size entry) > int (length data) then Ok best
        else if fst best = None \<or> resolution entry > snd best
             then Ok (Some entry, resolution entry)
             else Ok best))"

text \<open>
  \<open>decodeICO\<close>. The bounds of the final slice are \<open>uint32\<close> values, and their sum is a
  \<open>uint32\<close> sum.
\<close>

definition decodeICO :: "(byte list \<Rightarrow> image option) \<Rightarrow> byte list \<Rightarrow> image outcome" where
  "decodeICO png data =
     (if length data < 6 then Err HeaderTooShort
      else
        bindO (bindO (slice data 0 2) Uint16) (\<lambda>reserved.
        bindO (bindO (slice data 2 4) Uint16) (\<lambda>type.
        bindO (bindO (slice data 4 6) Uint16) (\<lambda>count.
          if reserved \<noteq> 0 then Err (ReservedNotZero reserved)
          else if type \<noteq> 1 then Err (TypeNotICO type)
          else if count = 0 then Err NoImages
          else
            let directorySize = 6 + uint count * 16 in
            if int (length data) < directorySize then Err TruncatedDirectory
            else
              bindO (forEach [0..<unat count] (scanEntry data) (None, 0)) (\<lambda>best.
                case fst best of
                  None \<Rightarrow> Err NoValidEntries
                | Some bestEntry \<Rightarrow>
                    bindO (slice data (uint (Offset bestEntry))
                             (uint (Offset bestEntry + Size bestEntry))) (\<lambda>imageData.
                      decodeICOImage png imageData bestEntry))))))"

section \<open>Reading the container as the specification describes it\<close>

text \<open>
  The little-endian fields of a buffer at a byte offset: the values that
  \<open>binary.LittleEndian.Uint16(d[i:i+2])\<close> and \<open>Uint32(d[i:i+4])\<close> return when the
  slice is in range.
\<close>

definition le16 :: "byte list \<Rightarrow> nat \<Rightarrow> 16 word" where
  "le16 d i = ucast (d ! i) OR push_bit 8 (ucast (d ! (i + 1)))"

definition le32 :: "byte list \<Rightarrow> nat \<Rightarrow> 32 word" where
  "le32 d i = ucast (d ! i) OR push_bit 8 (ucast (d ! (i + 1)))
              OR push_bit 16 (ucast (d ! (i + 2))) OR push_bit 24 (ucast (d ! (i + 3)))"

text \<open>
  The width and the height that \<open>decodeICOBMP\<close> decodes with: the signed header fields,
  the height halved, and the entry's declared size where the result is 0.
\<close>

definition dibWidth :: "byte list \<Rightarrow> icoEntry \<Rightarrow> int" where
  "dibWidth data entry =
     (if sint (le32 data 4) = 0 then getActualWidth entry else sint (le32 data 4))"

definition dibHeight :: "byte list \<Rightarrow> icoEntry \<Rightarrow> int" where
  "dibHeight data entry =
     (if sint (le32 data 8) sdiv 2 = 0 then getActualHeight entry
      else sint (le32 data 8) sdiv 2)"

text \<open>
  The specification's reading of the directory, to compare \<open>decodeICO\<close> with: slot \<open>i\<close>
  is the 16 bytes from offset \<open>6 + 16 i\<close>; an entry survives when its offset and size are
  not zero and \<open>offset + size\<close> is within the buffer; a declared width or height byte of
  0 means 256, and the resolution of an entry is its actual width times its actual
  height; the selected entry is the earliest one among those of maximal resolution.
  None of these definitions uses a definition of the decoder.
\<close>

definition entryAt :: "byte list \<Rightarrow> nat \<Rightarrow> icoEntry" where
  "entryAt data i =
     (let k = 6 + 16 * i in
      \<lparr>Width = data ! k, Height = data ! (k + 1), ColorCount = data ! (k + 2),
       Reserved = data ! (k + 3), Planes = le16 data (k + 4), BitCount = le16 data (k + 6),
       Size = le32 data (k + 8), Offset = le32 data (k + 12)\<rparr>)"

definition directory :: "byte list \<Rightarrow> icoEntry list" where
  "directory data = map (entryAt data) [0..<unat (le16 data 4)]"

definition surviving :: "byte list \<Rightarrow> icoEntry \<Rightarrow> bool" where
  "surviving data e \<longleftrightarrow>
     Offset e \<noteq> 0 \<and> Size e \<noteq> 0 \<and> uint (Offset e) + uint (Size e) \<le> int (length data)"

definition actual :: "byte \<Rightarrow> int" where
  "actual b = (if b = 0 then 256 else uint b)"

definition pixelArea :: "icoEntry \<Rightarrow> int" where
  "pixelArea e = actual (Width e) * actual (Height e)"

definition firstMaximal :: "icoEntry list \<Rightarrow> icoEntry option" where
  "firstMaximal es = find (\<lambda>e. \<forall>e' \<in> set es. pixelArea e' \<le> pixelArea e) es"

section \<open>The asset path resolver\<close>

text \<open>
  Modelled from the spec: \<open>resolveFilePath\<close> is missing from the sources (only its
  tests are there). The specification: strip the \<open>file://\<close> scheme prefix to obtain the
  path; a path that begins with \<open>/\<close> is absolute and is returned unchanged, whatever the
  base path; a relative path with an empty base path fails with \<open>BasePathRequired\<close>,
  whose message mentions that a relative path requires a base path; otherwise the
  result is the platform's join of the base path and the path. The platform's join
  (\<open>filepath.Join\<close>) is a parameter, and the path is handed to it as it is.
\<close>

datatype resolveError = BasePathRequired string

definition TrimPrefix :: "string \<Rightarrow> string \<Rightarrow> string" where
  "TrimPrefix s p = (if take (length p) s = p then drop (length p) s else s)"

definition Contains :: "string \<Rightarrow> string \<Rightarrow> bool" where
  "Contains s sub \<longleftrightarrow> (\<exists>i \<in> {0..length s}. take (length sub) (drop i s) = sub)"

definition resolveFilePath ::
  "(string \<Rightarrow> string \<Rightarrow> string) \<Rightarrow> string \<Rightarrow> string \<Rightarrow> resolveError + string" where
  "resolveFilePath join reference basePath =
     (let path = TrimPrefix reference ''file://'' in
      if take 1 path = ''/'' then Inr path
      else if basePath = [] then
        Inl (BasePathRequired ''relative path requires base path'')
      else Inr (join basePath path))"

section \<open>Properties of format detection\<close>

text \<open>
  Claim C5. A buffer that starts with the magic sequence of a supported format is
  classified as that format, whatever bytes follow: the PNG signature, the JPEG SOI
  marker, the marker \<open>BM\<close>, the ICO magic, and \<open>RIFF\<close> followed by any four size bytes
  and \<open>WEBP\<close>.
\<close>

theorem detectFormat_magic_sufficient:
  "detectFormat (magicPNG @ rest) = FormatPNG
   \<and> detectFormat (magicJPEG @ rest) = FormatJPEG
   \<and> detectFormat (magicBMP @ rest) = FormatBMP
   \<and> detectFormat (magicICO @ rest) = FormatICO
   \<and> detectFormat (magicRIFF @ [s0, s1, s2, s3] @ magicWEBP @ rest) = FormatWebP"
  by (simp add: detectFormat_def HasPrefix_def magicPNG_def magicJPEG_def
        magicBMP_def magicICO_def magicRIFF_def magicWEBP_def)

section \<open>Loops and pixels\<close>


lemma index_ok: "0 \<le> i \<Longrightarrow> i < int (length s) \<Longrightarrow> index s i = Ok (s ! nat i)"
  by (simp add: index_def)

lemma bindO_Ok_iff: "bindO m f = Ok y \<longleftrightarrow> (\<exists>x. m = Ok x \<and> f x = Ok y)"
  by (cases m) simp_all

lemma forEach_append:
  "forEach (xs @ ys) body s = bindO (forEach xs body s) (forEach ys body)"
proof (induction xs arbitrary: s)
  case Nil
  show ?case by simp
next
  case (Cons i rest)
  show ?case using Cons.IH by (cases "body i s") simp_all
qed

lemma forEachBreak_takeWhile:
  "forEachBreak xs brk body s = forEach (takeWhile (\<lambda>i. \<not> brk i) xs) body s"
proof (induction xs arbitrary: s)
  case Nil
  show ?case by simp
next
  case (Cons i rest)
  show ?case
  proof (cases "brk i")
    case True
    then show ?thesis by simp
  next
    case False
    then show ?thesis using Cons.IH by (cases "body i s") simp_all
  qed
qed

lemma forEach_total:
  assumes "\<And>i t. i \<in> set xs \<Longrightarrow> \<exists>t'. body i t = Ok t'"
  shows "\<exists>s'. forEach xs body s = Ok s'"
  using assms
proof (induction xs arbitrary: s)
  case Nil
  show ?case by simp
next
  case (Cons i rest)
  have "\<exists>t'. body i s = Ok t'" by (rule Cons.prems) simp
  then obtain t where t: "body i s = Ok t" ..
  have "\<exists>s'. forEach rest body t = Ok s'"
    by (rule Cons.IH) (rule Cons.prems, simp)
  with t show ?case by simp
qed

lemma forEach_invariant:
  assumes "forEach xs body s = Ok s'" and "P s"
    and "\<And>i t t'. i \<in> set xs \<Longrightarrow> P t \<Longrightarrow> body i t = Ok t' \<Longrightarrow> P t'"
  shows "P s'"
  using assms
proof (induction xs arbitrary: s)
  case Nil
  then show ?case by simp
next
  case (Cons i rest)
  from Cons.prems(1) obtain t where t: "body i s = Ok t" and r: "forEach rest body t = Ok s'"
    by (auto simp: bindO_Ok_iff)
  have "P t" by (rule Cons.prems(3) [OF _ Cons.prems(2) t]) simp
  show ?case
    by (rule Cons.IH [OF r \<open>P t\<close>]) (rule Cons.prems(3), simp_all)
qed


lemma Pix_SetRGBA_other:
  "(x, y) \<noteq> p \<Longrightarrow> Pix (SetRGBA img x y c) p = Pix img p"
  by (simp add: SetRGBA_def)

lemma Bounds_SetRGBA: "Bounds (SetRGBA img x y c) = Bounds img"
  by (simp add: SetRGBA_def)

lemma pixel_loops_total:
  assumes "\<And>y x t. y < nat h \<Longrightarrow> \<not> brk y \<Longrightarrow> x < nat w \<Longrightarrow> \<exists>t'. body y x t = Ok t'"
  shows "\<exists>img'. forEachBreak [0..<nat h] brk (\<lambda>y. forEach [0..<nat w] (body y)) img = Ok img'"
  unfolding forEachBreak_takeWhile
proof (rule forEach_total)
  fix y t
  assume "y \<in> set (takeWhile (\<lambda>i. \<not> brk i) [0..<nat h])"
  then have y: "y < nat h" "\<not> brk y" by (auto dest: set_takeWhileD)
  show "\<exists>t'. forEach [0..<nat w] (body y) t = Ok t'"
    by (rule forEach_total) (rule assms [OF y], simp)
qed

lemma pixel_loops_invariant:
  assumes run: "forEachBreak [0..<nat h] brk (\<lambda>y. forEach [0..<nat w] (body y)) img = Ok img'"
    and init: "P img"
    and step: "\<And>y x t t'. y \<in> set (takeWhile (\<lambda>i. \<not> brk i) [0..<nat h]) \<Longrightarrow> x < nat w
                 \<Longrightarrow> P t \<Longrightarrow> body y x t = Ok t' \<Longrightarrow> P t'"
  shows "P img'"
proof (rule forEach_invariant [where P = P, OF run [unfolded forEachBreak_takeWhile] init])
  fix y t t'
  assume y: "y \<in> set (takeWhile (\<lambda>i. \<not> brk i) [0..<nat h])" and t: "P t"
    and inner: "forEach [0..<nat w] (body y) t = Ok t'"
  show "P t'"
    by (rule forEach_invariant [where P = P, OF inner t]) (rule step [OF y], simp_all)
qed

lemma sdiv_nonneg: "0 \<le> a \<Longrightarrow> 0 < b \<Longrightarrow> (a::int) sdiv b = a div b"
  by (simp add: signed_divide_int_def sgn_if)

lemma setPalettePixel_cases:
  "setPalettePixel palette v x y t = Ok t \<or> (\<exists>c. setPalettePixel palette v x y t = Ok (SetRGBA t x y c))"
proof -
  have "0 \<le> uint v" by simp
  then show ?thesis
    by (auto simp add: setPalettePixel_def Let_def index_def)
qed

lemma setPalettePixel_short:
  "int (length palette) \<le> uint v * 4 + 3 \<Longrightarrow> setPalettePixel palette v x y t = Ok t"
  by (simp add: setPalettePixel_def Let_def)

lemma decodeICOBMP32_total: "\<exists>img'. decodeICOBMP32 img data w h = Ok img'"
  unfolding decodeICOBMP32_def Let_def
proof (rule pixel_loops_total)
  fix y x t
  assume y: "y < nat h" and x: "x < nat w"
    and nb: "\<not> int (length data) < (h - 1 - int y) * (w * 4) + w * 4"
  have nn: "0 \<le> (h - 1 - int y) * (w * 4)"
    using y x by (intro mult_nonneg_nonneg) auto
  have lo: "0 \<le> (h - 1 - int y) * (w * 4) + int x * 4" using nn by simp
  have hi: "(h - 1 - int y) * (w * 4) + int x * 4 + 3 < int (length data)"
    using nb x by linarith
  show "\<exists>t'. bindO (index data ((h - 1 - int y) * (w * 4) + int x * 4)) (\<lambda>b.
          bindO (index data ((h - 1 - int y) * (w * 4) + int x * 4 + 1)) (\<lambda>g.
          bindO (index data ((h - 1 - int y) * (w * 4) + int x * 4 + 2)) (\<lambda>r.
          bindO (index data ((h - 1 - int y) * (w * 4) + int x * 4 + 3)) (\<lambda>a.
            Ok (SetRGBA t (int x) (int y) (RGBA r g b a)))))) = Ok t'"
    using lo hi by (simp add: index_def)
qed

lemma decodeICOBMP24_total: "\<exists>img'. decodeICOBMP24 img data w h = Ok img'"
  unfolding decodeICOBMP24_def Let_def
proof (rule pixel_loops_total)
  fix y x t
  assume y: "y < nat h" and x: "x < nat w"
    and nb: "\<not> int (length data) < (h - 1 - int y) * ((w * 3 + 3) sdiv 4 * 4) + w * 3"
  have "0 \<le> (w * 3 + 3) sdiv 4" using x by (simp add: sdiv_nonneg)
  then have nn: "0 \<le> (h - 1 - int y) * ((w * 3 + 3) sdiv 4 * 4)"
    using y by (intro mult_nonneg_nonneg) auto
  have lo: "0 \<le> (h - 1 - int y) * ((w * 3 + 3) sdiv 4 * 4) + int x * 3" using nn by simp
  have hi: "(h - 1 - int y) * ((w * 3 + 3) sdiv 4 * 4) + int x * 3 + 2 < int (length data)"
    using nb x by linarith
  show "\<exists>t'. bindO (index data ((h - 1 - int y) * ((w * 3 + 3) sdiv 4 * 4) + int x * 3)) (\<lambda>b.
          bindO (index data ((h - 1 - int y) * ((w * 3 + 3) sdiv 4 * 4) + int x * 3 + 1)) (\<lambda>g.
          bindO (index data ((h - 1 - int y) * ((w * 3 + 3) sdiv 4 * 4) + int x * 3 + 2)) (\<lambda>r.
            Ok (SetRGBA t (int x) (int y) (RGBA r g b 255))))) = Ok t'"
    using lo hi by (simp add: index_def)
qed

lemma setPalettePixel_total: "\<exists>t'. setPalettePixel palette v x y t = Ok t'"
  using setPalettePixel_cases [of palette v x y t] by auto

lemma decodeICOBMP8_total: "\<exists>img'. decodeICOBMP8 img data w h palette = Ok img'"
  unfolding decodeICOBMP8_def Let_def
proof (rule pixel_loops_total)
  fix y x t
  assume y: "y < nat h" and x: "x < nat w"
    and nb: "\<not> int (length data) < (h - 1 - int y) * ((w + 3) sdiv 4 * 4) + w"
  have "0 \<le> (w + 3) sdiv 4" using x by (simp add: sdiv_nonneg)
  then have nn: "0 \<le> (h - 1 - int y) * ((w + 3) sdiv 4 * 4)"
    using y by (intro mult_nonneg_nonneg) auto
  have lo: "0 \<le> (h - 1 - int y) * ((w + 3) sdiv 4 * 4) + int x" using nn by simp
  have hi: "(h - 1 - int y) * ((w + 3) sdiv 4 * 4) + int x < int (length data)"
    using nb x by linarith
  show "\<exists>t'. bindO (index data ((h - 1 - int y) * ((w + 3) sdiv 4 * 4) + int x)) (\<lambda>pixelValue.
          setPalettePixel palette pixelValue (int x) (int y) t) = Ok t'"
    using lo hi by (simp add: index_def setPalettePixel_total)
qed

lemma decodeICOBMP4_total: "\<exists>img'. decodeICOBMP4 img data w h palette = Ok img'"
  unfolding decodeICOBMP4_def Let_def
proof (rule pixel_loops_total)
  fix y x t
  assume y: "y < nat h" and x: "x < nat w"
    and nb: "\<not> int (length data) < (h - 1 - int y) * ((w * 4 + 31) sdiv 32 * 4) + (w * 4 + 31) sdiv 32 * 4"
  have sd: "(w * 4 + 31) sdiv 32 = (w * 4 + 31) div 32" using x by (simp add: sdiv_nonneg)
  have "0 \<le> (w * 4 + 31) sdiv 32" using x unfolding sd by simp
  then have nn: "0 \<le> (h - 1 - int y) * ((w * 4 + 31) sdiv 32 * 4)"
    using y by (intro mult_nonneg_nonneg) auto
  have lo: "0 \<le> (h - 1 - int y) * ((w * 4 + 31) sdiv 32 * 4) + int (x div 2)" using nn by simp
  have "int (x div 2) < (w * 4 + 31) sdiv 32 * 4" using x unfolding sd by (simp add: zdiv_int)
  then have hi: "(h - 1 - int y) * ((w * 4 + 31) sdiv 32 * 4) + int (x div 2) < int (length data)"
    using nb by linarith
  show "\<exists>t'. bindO (index data ((h - 1 - int y) * ((w * 4 + 31) sdiv 32 * 4) + int (x div 2))) (\<lambda>b.
          setPalettePixel palette (if x mod 2 = 0 then drop_bit 4 b AND 0x0F else b AND 0x0F)
            (int x) (int y) t) = Ok t'"
    using lo hi by (simp add: index_def setPalettePixel_total)
qed

lemma decodeICOBMP1_total: "\<exists>img'. decodeICOBMP1 img data w h palette = Ok img'"
  unfolding decodeICOBMP1_def Let_def
proof (rule pixel_loops_total)
  fix y x t
  assume y: "y < nat h" and x: "x < nat w"
    and nb: "\<not> int (length data) < (h - 1 - int y) * ((w + 31) sdiv 32 * 4) + (w + 31) sdiv 32 * 4"
  have sd: "(w + 31) sdiv 32 = (w + 31) div 32" using x by (simp add: sdiv_nonneg)
  have "0 \<le> (w + 31) sdiv 32" using x unfolding sd by simp
  then have nn: "0 \<le> (h - 1 - int y) * ((w + 31) sdiv 32 * 4)"
    using y by (intro mult_nonneg_nonneg) auto
  have lo: "0 \<le> (h - 1 - int y) * ((w + 31) sdiv 32 * 4) + int (x div 8)" using nn by simp
  have "int (x div 8) < (w + 31) sdiv 32 * 4" using x unfolding sd by (simp add: zdiv_int)
  then have hi: "(h - 1 - int y) * ((w + 31) sdiv 32 * 4) + int (x div 8) < int (length data)"
    using nb by linarith
  show "\<exists>t'. bindO (index data ((h - 1 - int y) * ((w + 31) sdiv 32 * 4) + int (x div 8))) (\<lambda>b.
          setPalettePixel palette (drop_bit (7 - x mod 8) b AND 1) (int x) (int y) t) = Ok t'"
    using lo hi by (simp add: index_def setPalettePixel_total)
qed


lemma pixel_loops_skip:
  assumes run: "forEachBreak [0..<nat h] brk (\<lambda>y. forEach [0..<nat w] (body y)) img = Ok img'"
    and writes: "\<And>y x t t'. body y x t = Ok t' \<Longrightarrow> t' = t \<or> (\<exists>c. t' = SetRGBA t (int x) (int y) c)"
    and skip: "\<And>t t'. body y0 x0 t = Ok t' \<Longrightarrow> t' = t"
  shows "Pix img' (int x0, int y0) = Pix img (int x0, int y0)"
proof (rule pixel_loops_invariant [where P = "\<lambda>t. Pix t (int x0, int y0) = Pix img (int x0, int y0)", OF run])
  show "Pix img (int x0, int y0) = Pix img (int x0, int y0)" by simp
next
  fix y x t t'
  assume t: "Pix t (int x0, int y0) = Pix img (int x0, int y0)" and b: "body y x t = Ok t'"
  show "Pix t' (int x0, int y0) = Pix img (int x0, int y0)"
  proof (cases "x = x0 \<and> y = y0")
    case True
    then show ?thesis using skip b t by auto
  next
    case False
    then have ne: "(int x, int y) \<noteq> (int x0, int y0)" by auto
    from writes [OF b] show ?thesis using t Pix_SetRGBA_other [OF ne] by auto
  qed
qed

lemma pixel_loops_Bounds:
  assumes run: "forEachBreak [0..<nat h] brk (\<lambda>y. forEach [0..<nat w] (body y)) img = Ok img'"
    and writes: "\<And>y x t t'. body y x t = Ok t' \<Longrightarrow> t' = t \<or> (\<exists>c. t' = SetRGBA t (int x) (int y) c)"
  shows "Bounds img' = Bounds img"
proof (rule pixel_loops_invariant [where P = "\<lambda>t. Bounds t = Bounds img", OF run])
  show "Bounds img = Bounds img" by simp
next
  fix y x t t'
  assume t: "Bounds t = Bounds img" and b: "body y x t = Ok t'"
  from writes [OF b] show "Bounds t' = Bounds img" using t Bounds_SetRGBA by auto
qed

lemma palette_body_writes:
  assumes "bindO (index data i) (\<lambda>b. setPalettePixel palette (f b) x y t) = Ok t'"
  shows "t' = t \<or> (\<exists>c. t' = SetRGBA t x y c)"
proof -
  from assms obtain b where "setPalettePixel palette (f b) x y t = Ok t'"
    by (auto simp: bindO_Ok_iff)
  then show ?thesis using setPalettePixel_cases [of palette "f b" x y t] by auto
qed

lemma body24_writes:
  assumes "bindO (index data i) (\<lambda>b. bindO (index data j) (\<lambda>g. bindO (index data k) (\<lambda>r.
             Ok (SetRGBA t x y (RGBA r g b 255))))) = Ok t'"
  shows "t' = t \<or> (\<exists>c. t' = SetRGBA t x y c)"
  using assms by (auto simp: bindO_Ok_iff)

lemma body32_writes:
  assumes "bindO (index data i) (\<lambda>b. bindO (index data j) (\<lambda>g. bindO (index data k) (\<lambda>r.
             bindO (index data l) (\<lambda>a. Ok (SetRGBA t x y (RGBA r g b a)))))) = Ok t'"
  shows "t' = t \<or> (\<exists>c. t' = SetRGBA t x y c)"
  using assms by (auto simp: bindO_Ok_iff)







lemma palette_body_skip:
  assumes "index data i = Ok b" and "int (length palette) \<le> uint (f b) * 4 + 3"
    and "bindO (index data i) (\<lambda>b. setPalettePixel palette (f b) x y t) = Ok t'"
  shows "t' = t"
  using assms by (simp add: setPalettePixel_short)

section \<open>Palette indices beyond the palette\<close>

text \<open>
  Claim C10. The three palette-indexed decoders (1, 4 and 8 bits) return no error and read
  neither the pixel data nor the palette out of range, whatever the length of the
  palette. A pixel whose value \<open>v\<close> indexes at or beyond the end of the palette, that is
  \<open>length palette \<le> 4 v + 3\<close> (the palette has at most \<open>v\<close> whole four-byte entries),
  keeps the value it had before the call: the zero pixel of the new image that
  \<open>decodeICOBMP\<close> passes. The byte \<open>b\<close> is the one the decoder reads for pixel
  \<open>(x, y)\<close>.
\<close>

theorem palette_index_beyond_palette_skipped:
  "(\<exists>img'. decodeICOBMP1 img data w h palette = Ok img' \<and>
      (\<forall>x y b.
         index data ((h - 1 - int y) * ((w + 31) sdiv 32 * 4) + int (x div 8)) = Ok b \<longrightarrow>
         int (length palette) \<le> uint (drop_bit (7 - x mod 8) b AND 1) * 4 + 3 \<longrightarrow>
         Pix img' (int x, int y) = Pix img (int x, int y)))
   \<and> (\<exists>img'. decodeICOBMP4 img data w h palette = Ok img' \<and>
      (\<forall>x y b.
         index data ((h - 1 - int y) * ((w * 4 + 31) sdiv 32 * 4) + int (x div 2)) = Ok b \<longrightarrow>
         int (length palette)
           \<le> uint (if x mod 2 = 0 then drop_bit 4 b AND 0x0F else b AND 0x0F) * 4 + 3 \<longrightarrow>
         Pix img' (int x, int y) = Pix img (int x, int y)))
   \<and> (\<exists>img'. decodeICOBMP8 img data w h palette = Ok img' \<and>
      (\<forall>x y b.
         index data ((h - 1 - int y) * ((w + 3) sdiv 4 * 4) + int x) = Ok b \<longrightarrow>
         int (length palette) \<le> uint b * 4 + 3 \<longrightarrow>
         Pix img' (int x, int y) = Pix img (int x, int y)))"
proof (intro conjI)
  obtain i1 where i1: "decodeICOBMP1 img data w h palette = Ok i1"
    using decodeICOBMP1_total by blast
  have "Pix i1 (int x, int y) = Pix img (int x, int y)"
    if "index data ((h - 1 - int y) * ((w + 31) sdiv 32 * 4) + int (x div 8)) = Ok b"
      and "int (length palette) \<le> uint (drop_bit (7 - x mod 8) b AND 1) * 4 + 3" for x y b
    by (rule pixel_loops_skip [OF i1 [unfolded decodeICOBMP1_def Let_def]])
       (erule palette_body_writes,
        erule palette_body_skip [where f = "\<lambda>b. drop_bit (7 - x mod 8) b AND 1", OF that])
  then show "\<exists>img'. decodeICOBMP1 img data w h palette = Ok img' \<and>
      (\<forall>x y b.
         index data ((h - 1 - int y) * ((w + 31) sdiv 32 * 4) + int (x div 8)) = Ok b \<longrightarrow>
         int (length palette) \<le> uint (drop_bit (7 - x mod 8) b AND 1) * 4 + 3 \<longrightarrow>
         Pix img' (int x, int y) = Pix img (int x, int y))"
    using i1 by blast
next
  obtain i4 where i4: "decodeICOBMP4 img data w h palette = Ok i4"
    using decodeICOBMP4_total by blast
  have "Pix i4 (int x, int y) = Pix img (int x, int y)"
    if "index data ((h - 1 - int y) * ((w * 4 + 31) sdiv 32 * 4) + int (x div 2)) = Ok b"
      and "int (length palette)
           \<le> uint (if x mod 2 = 0 then drop_bit 4 b AND 0x0F else b AND 0x0F) * 4 + 3" for x y b
    by (rule pixel_loops_skip [OF i4 [unfolded decodeICOBMP4_def Let_def]])
       (erule palette_body_writes,
        erule palette_body_skip
          [where f = "\<lambda>b. if x mod 2 = 0 then drop_bit 4 b AND 0x0F else b AND 0x0F", OF that])
  then show "\<exists>img'. decodeICOBMP4 img data w h palette = Ok img' \<and>
      (\<forall>x y b.
         index data ((h - 1 - int y) * ((w * 4 + 31) sdiv 32 * 4) + int (x div 2)) = Ok b \<longrightarrow>
         int (length palette)
           \<le> uint (if x mod 2 = 0 then drop_bit 4 b AND 0x0F else b AND 0x0F) * 4 + 3 \<longrightarrow>
         Pix img' (int x, int y) = Pix img (int x, int y))"
    using i4 by blast
next
  obtain i8 where i8: "decodeICOBMP8 img data w h palette = Ok i8"
    using decodeICOBMP8_total by blast
  have "Pix i8 (int x, int y) = Pix img (int x, int y)"
    if "index data ((h - 1 - int y) * ((w + 3) sdiv 4 * 4) + int x) = Ok b"
      and "int (length palette) \<le> uint b * 4 + 3" for x y b
    by (rule pixel_loops_skip [OF i8 [unfolded decodeICOBMP8_def Let_def]])
       (erule palette_body_writes [where f = "\<lambda>b. b"],
        erule palette_body_skip [where f = "\<lambda>b. b", OF that])
  then show "\<exists>img'. decodeICOBMP8 img data w h palette = Ok img' \<and>
      (\<forall>x y b.
         index data ((h - 1 - int y) * ((w + 3) sdiv 4 * 4) + int x) = Ok b \<longrightarrow>
         int (length palette) \<le> uint b * 4 + 3 \<longrightarrow>
         Pix img' (int x, int y) = Pix img (int x, int y))"
    using i8 by blast
qed

theorem palette_index_beyond_palette_skipped_witness:
  "\<exists>img'. decodeICOBMP8 (blankRGBA (Rect 0 0 1 1)) [5, 0, 0, 0] 1 1 [10, 20, 30, 0] = Ok img'
      \<and> Pix img' (0, 0) = RGBA 0 0 0 0"
proof -
  from palette_index_beyond_palette_skipped
         [of "blankRGBA (Rect 0 0 1 1)" "[5, 0, 0, 0]" 1 1 "[10, 20, 30, 0]"]
  obtain img' where
    ok: "decodeICOBMP8 (blankRGBA (Rect 0 0 1 1)) [5, 0, 0, 0] 1 1 [10, 20, 30, 0] = Ok img'"
    and sk: "\<forall>x y b.
         index [5, 0, 0, 0] ((1 - 1 - int y) * ((1 + 3) sdiv 4 * 4) + int x) = Ok b \<longrightarrow>
         int (length [10, 20, 30, 0 :: byte]) \<le> uint b * 4 + 3 \<longrightarrow>
         Pix img' (int x, int y) = Pix (blankRGBA (Rect 0 0 1 1)) (int x, int y)"
    by blast
  have "Pix img' (int 0, int 0) = Pix (blankRGBA (Rect 0 0 1 1)) (int 0, int 0)"
    by (rule sk [rule_format, of 0 0 5]) (simp_all add: index_def)
  then show ?thesis using ok by (simp add: blankRGBA_def)
qed


section \<open>The embedded bitmap\<close>


lemma slice_ok:
  "0 \<le> lo \<Longrightarrow> lo \<le> hi \<Longrightarrow> hi \<le> int (length s)
   \<Longrightarrow> slice s lo hi = Ok (take (nat (hi - lo)) (drop (nat lo) s))"
  by (simp add: slice_def)

lemma read16:
  "0 \<le> lo \<Longrightarrow> hi = lo + 2 \<Longrightarrow> hi \<le> int (length d)
   \<Longrightarrow> bindO (slice d lo hi) Uint16 = Ok (le16 d (nat lo))"
  by (simp add: slice_def Uint16_def le16_def)

lemma read32:
  "0 \<le> lo \<Longrightarrow> hi = lo + 4 \<Longrightarrow> hi \<le> int (length d)
   \<Longrightarrow> bindO (slice d lo hi) Uint32 = Ok (le32 d (nat lo))"
  by (simp add: slice_def Uint32_def le32_def)

lemma bindO_Err_iff:
  "bindO m f = Err e \<longleftrightarrow> m = Err e \<or> (\<exists>x. m = Ok x \<and> f x = Err e)"
  by (cases m) simp_all

lemma sliceFrom_not_Err: "sliceFrom s lo \<noteq> Err e"
  by (simp add: sliceFrom_def slice_def)

lemma decodeByDepth_Err:
  assumes "decodeByDepth bc img data off w h palette = Err e"
  shows "e = UnsupportedBitDepth bc \<and> bc \<noteq> 1 \<and> bc \<noteq> 4 \<and> bc \<noteq> 8 \<and> bc \<noteq> 24 \<and> bc \<noteq> 32"
proof -
  have no: "bindO (sliceFrom data off) f \<noteq> Err e" if "\<And>d. \<exists>r. f d = Ok r" for f :: "byte list \<Rightarrow> image outcome"
  proof
    assume "bindO (sliceFrom data off) f = Err e"
    then obtain d where "f d = Err e" by (auto simp: bindO_Err_iff sliceFrom_not_Err)
    with that [of d] show False by auto
  qed
  note n1 = no [of "\<lambda>d. decodeICOBMP1 img d w h palette", OF decodeICOBMP1_total]
  note n4 = no [of "\<lambda>d. decodeICOBMP4 img d w h palette", OF decodeICOBMP4_total]
  note n8 = no [of "\<lambda>d. decodeICOBMP8 img d w h palette", OF decodeICOBMP8_total]
  note n24 = no [of "\<lambda>d. decodeICOBMP24 img d w h", OF decodeICOBMP24_total]
  note n32 = no [of "\<lambda>d. decodeICOBMP32 img d w h", OF decodeICOBMP32_total]
  show ?thesis
    using assms n1 n4 n8 n24 n32
    by (simp add: decodeByDepth_def split: if_splits)
qed

lemma decodeByDepth_unsupported:
  "bc \<noteq> 1 \<Longrightarrow> bc \<noteq> 4 \<Longrightarrow> bc \<noteq> 8 \<Longrightarrow> bc \<noteq> 24 \<Longrightarrow> bc \<noteq> 32
   \<Longrightarrow> decodeByDepth bc img data off w h palette = Err (UnsupportedBitDepth bc)"
  by (simp add: decodeByDepth_def)

lemma decodeICOBMP1_Bounds:
  assumes "decodeICOBMP1 img data w h palette = Ok img'"
  shows "Bounds img' = Bounds img"
  by (rule pixel_loops_Bounds [OF assms [unfolded decodeICOBMP1_def Let_def]])
     (erule palette_body_writes)

lemma decodeICOBMP4_Bounds:
  assumes "decodeICOBMP4 img data w h palette = Ok img'"
  shows "Bounds img' = Bounds img"
  by (rule pixel_loops_Bounds [OF assms [unfolded decodeICOBMP4_def Let_def]])
     (erule palette_body_writes)

lemma decodeICOBMP8_Bounds:
  assumes "decodeICOBMP8 img data w h palette = Ok img'"
  shows "Bounds img' = Bounds img"
  by (rule pixel_loops_Bounds [OF assms [unfolded decodeICOBMP8_def Let_def]])
     (erule palette_body_writes [where f = "\<lambda>b. b"])

lemma decodeICOBMP24_Bounds:
  assumes "decodeICOBMP24 img data w h = Ok img'"
  shows "Bounds img' = Bounds img"
  by (rule pixel_loops_Bounds [OF assms [unfolded decodeICOBMP24_def Let_def]])
     (erule body24_writes)

lemma decodeICOBMP32_Bounds:
  assumes "decodeICOBMP32 img data w h = Ok img'"
  shows "Bounds img' = Bounds img"
  by (rule pixel_loops_Bounds [OF assms [unfolded decodeICOBMP32_def Let_def]])
     (erule body32_writes)

lemma decodeByDepth_Bounds:
  assumes "decodeByDepth bc img data off w h palette = Ok img'"
  shows "Bounds img' = Bounds img"
  using assms
  by (auto simp: decodeByDepth_def bindO_Ok_iff split: if_splits
           dest: decodeICOBMP1_Bounds decodeICOBMP4_Bounds decodeICOBMP8_Bounds
                 decodeICOBMP24_Bounds decodeICOBMP32_Bounds)

lemma paletteSize_pos: "0 < paletteSize entry bc"
proof -
  have "0 < uint (ColorCount entry)" if "0 < ColorCount entry"
    using that by (simp add: word_less_def)
  then show ?thesis by (simp add: paletteSize_def Let_def)
qed

lemma readPalette_short:
  "bc \<le> 8 \<Longrightarrow> int (length data) < off + paletteSize entry bc * 4
   \<Longrightarrow> readPalette data entry bc off = Err TruncatedPalette"
  by (simp add: readPalette_def Let_def)

lemma readPalette_Ok:
  assumes "0 \<le> off" and "\<not> (bc \<le> 8 \<and> int (length data) < off + paletteSize entry bc * 4)"
  shows "\<exists>palette pixelOffset. readPalette data entry bc off = Ok (palette, pixelOffset)"
proof (cases "bc \<le> 8")
  case True
  with assms(2) have le: "off + paletteSize entry bc * 4 \<le> int (length data)" by simp
  have "off \<le> off + paletteSize entry bc * 4" using paletteSize_pos [of entry bc] by simp
  then show ?thesis using True le assms(1) by (simp add: readPalette_def Let_def slice_def)
next
  case False
  then show ?thesis by (simp add: readPalette_def)
qed

lemma readPalette_Err:
  "readPalette data entry bc off = Err e \<Longrightarrow> e = TruncatedPalette"
  by (auto simp: readPalette_def Let_def slice_def bindO_Err_iff split: if_splits)

lemma NewRGBA_cases: "NewRGBA r = Panic \<or> NewRGBA r = Ok (blankRGBA r)"
  by (simp add: NewRGBA_def Let_def)

lemma NewRGBA_Ok: "NewRGBA r = Ok img \<Longrightarrow> img = blankRGBA r"
  using NewRGBA_cases [of r] by auto

lemma NewRGBA_not_Err: "NewRGBA r \<noteq> Err e"
  using NewRGBA_cases [of r] by auto

lemma Bounds_blankRGBA: "Bounds (blankRGBA r) = r"
  by (simp add: blankRGBA_def)

lemma decodeICOBMP_parsed:
  assumes "40 \<le> length data"
  shows "decodeICOBMP data entry =
     (if le32 data 0 < 40 then Err (UnsupportedDibHeader (le32 data 0))
      else if le32 data 16 \<noteq> 0 then Err (UnsupportedCompression (le32 data 16))
      else bindO (readPalette data entry (le16 data 14) (uint (le32 data 0)))
             (\<lambda>(palette, pixelOffset).
                bindO (NewRGBA (Rect 0 0 (dibWidth data entry) (dibHeight data entry)))
                  (\<lambda>img. decodeByDepth (le16 data 14) img data pixelOffset
                     (dibWidth data entry) (dibHeight data entry) palette)))"
  using assms
  by (simp add: decodeICOBMP_def read16 read32 Let_def dibWidth_def dibHeight_def)

lemma decodeICOBMP_Bounds:
  assumes "decodeICOBMP data entry = Ok img"
  shows "40 \<le> length data \<and>
         Bounds img = Rect 0 0
           (if sint (le32 data 4) = 0 then getActualWidth entry else sint (le32 data 4))
           (if sint (le32 data 8) sdiv 2 = 0 then getActualHeight entry
            else sint (le32 data 8) sdiv 2)"
proof -
  have len: "40 \<le> length data"
    using assms by (cases "length data < 40") (simp_all add: decodeICOBMP_def)
  from assms obtain img0 where
    new: "NewRGBA (Rect 0 0 (dibWidth data entry) (dibHeight data entry)) = Ok img0"
    and dec: "\<exists>palette pixelOffset.
      decodeByDepth (le16 data 14) img0 data pixelOffset
        (dibWidth data entry) (dibHeight data entry) palette = Ok img"
    unfolding decodeICOBMP_parsed [OF len]
    by (auto simp: bindO_Ok_iff split: if_splits)
  from dec obtain palette pixelOffset where
    "decodeByDepth (le16 data 14) img0 data pixelOffset
        (dibWidth data entry) (dibHeight data entry) palette = Ok img"
    by blast
  then have "Bounds img = Bounds img0" by (rule decodeByDepth_Bounds)
  also have "\<dots> = Rect 0 0 (dibWidth data entry) (dibHeight data entry)"
    using NewRGBA_Ok [OF new] by (simp add: Bounds_blankRGBA)
  finally show ?thesis using len by (simp add: dibWidth_def dibHeight_def)
qed

text \<open>
  Claim C3, as the code has it. For an embedded bitmap whose header has
  \<open>headerSize \<ge> 40\<close>, no compression and a bit count other than 1, 4, 8, 24 and 32,
  \<open>decodeICOBMP\<close> never returns an image, and the only errors it returns are
  \<open>TruncatedPalette\<close> and \<open>UnsupportedBitDepth\<close>. The palette is read before the bit
  count is dispatched on, so a bit count of at most 8 (0, 2, 3, 5, 6 or 7) whose palette
  does not fit into the buffer fails with \<open>TruncatedPalette\<close>. In every other case the
  error is \<open>UnsupportedBitDepth\<close>, once \<open>image.NewRGBA\<close> has returned the image of the
  dimensions that the header declares: the image is allocated before the bit count is
  dispatched on.
\<close>

theorem unsupported_depth_never_decodes:
  assumes "40 \<le> length data" and "40 \<le> le32 data 0" and "le32 data 16 = 0"
    and "le16 data 14 \<notin> {1, 4, 8, 24, 32}"
  shows "(\<forall>img. decodeICOBMP data entry \<noteq> Ok img)
     \<and> (\<forall>e. decodeICOBMP data entry = Err e
            \<longrightarrow> e = TruncatedPalette \<or> e = UnsupportedBitDepth (le16 data 14))
     \<and> (le16 data 14 \<le> 8
          \<and> int (length data) < uint (le32 data 0) + paletteSize entry (le16 data 14) * 4
        \<longrightarrow> decodeICOBMP data entry = Err TruncatedPalette)
     \<and> (\<not> (le16 data 14 \<le> 8
             \<and> int (length data)
                 < uint (le32 data 0) + paletteSize entry (le16 data 14) * 4)
          \<and> NewRGBA (Rect 0 0 (dibWidth data entry) (dibHeight data entry)) \<noteq> Panic
        \<longrightarrow> decodeICOBMP data entry = Err (UnsupportedBitDepth (le16 data 14)))"
proof (cases "le16 data 14 \<le> 8
               \<and> int (length data) < uint (le32 data 0) + paletteSize entry (le16 data 14) * 4")
  case True
  then have "decodeICOBMP data entry = Err TruncatedPalette"
    using assms by (simp add: decodeICOBMP_parsed readPalette_short not_less [symmetric])
  then show ?thesis using True by simp
next
  case False
  have "0 \<le> uint (le32 data 0)" by simp
  from readPalette_Ok [OF this False] obtain palette pixelOffset where
    "readPalette data entry (le16 data 14) (uint (le32 data 0)) = Ok (palette, pixelOffset)"
    by blast
  then have eq: "decodeICOBMP data entry =
      bindO (NewRGBA (Rect 0 0 (dibWidth data entry) (dibHeight data entry)))
        (\<lambda>img. Err (UnsupportedBitDepth (le16 data 14)))"
    using assms
    by (simp add: decodeICOBMP_parsed decodeByDepth_unsupported not_less [symmetric])
  from NewRGBA_cases [of "Rect 0 0 (dibWidth data entry) (dibHeight data entry)"]
  show ?thesis
  proof
    assume "NewRGBA (Rect 0 0 (dibWidth data entry) (dibHeight data entry)) = Panic"
    then show ?thesis using False by (simp add: eq)
  next
    assume "NewRGBA (Rect 0 0 (dibWidth data entry) (dibHeight data entry))
            = Ok (blankRGBA (Rect 0 0 (dibWidth data entry) (dibHeight data entry)))"
    then show ?thesis using False by (simp add: eq)
  qed
qed

text \<open>
  A 40-byte bitmap with bit count 2: the palette of four entries does not fit, and the
  error is \<open>TruncatedPalette\<close>, not \<open>UnsupportedBitDepth\<close>.
\<close>

theorem unsupported_depth_counterexample:
  "decodeICOBMP
     [40, 0, 0, 0,  1, 0, 0, 0,  2, 0, 0, 0,  1, 0,  2, 0,  0, 0, 0, 0,
      0, 0, 0, 0,  0, 0, 0, 0,  0, 0, 0, 0,  0, 0, 0, 0,  0, 0, 0, 0]
     \<lparr>Width = 1, Height = 1, ColorCount = 0, Reserved = 0, Planes = 1, BitCount = 2,
      Size = 40, Offset = 22\<rparr>
   = Err TruncatedPalette"
  by (simp add: decodeICOBMP_def slice_def Uint16_def Uint32_def readPalette_def
        paletteSize_def Let_def)

theorem unsupported_depth_never_decodes_witness:
  "decodeICOBMP
     [40, 0, 0, 0,  1, 0, 0, 0,  2, 0, 0, 0,  1, 0,  16, 0,  0, 0, 0, 0,
      0, 0, 0, 0,  0, 0, 0, 0,  0, 0, 0, 0,  0, 0, 0, 0,  0, 0, 0, 0]
     \<lparr>Width = 1, Height = 1, ColorCount = 0, Reserved = 0, Planes = 1, BitCount = 16,
      Size = 40, Offset = 22\<rparr>
   = Err (UnsupportedBitDepth 16)"
  using unsupported_depth_never_decodes
    [of "[40, 0, 0, 0,  1, 0, 0, 0,  2, 0, 0, 0,  1, 0,  16, 0,  0, 0, 0, 0,
      0, 0, 0, 0,  0, 0, 0, 0,  0, 0, 0, 0,  0, 0, 0, 0,  0, 0, 0, 0]"
      "\<lparr>Width = 1, Height = 1, ColorCount = 0, Reserved = 0, Planes = 1, BitCount = 16,
      Size = 40, Offset = 22\<rparr>"]
  by (simp add: le16_def le32_def dibWidth_def dibHeight_def NewRGBA_def Rect_def Dx_def
        Dy_def mul3NonNeg_def maxAlloc_def Let_def)


section \<open>Selection of the best entry\<close>


lemma parseICOEntry_16:
  assumes "length d = 16"
  shows "parseICOEntry d =
     Ok \<lparr>Width = d ! 0, Height = d ! 1, ColorCount = d ! 2, Reserved = d ! 3,
         Planes = le16 d 4, BitCount = le16 d 6, Size = le32 d 8, Offset = le32 d 12\<rparr>"
  using assms by (simp add: parseICOEntry_def index_def read16 read32)

lemma parse_slot:
  assumes "6 + 16 * i + 16 \<le> length data"
  shows "bindO (slice data (6 + int i * 16) (6 + int i * 16 + 16)) parseICOEntry
         = Ok (entryAt data i)"
proof -
  have off: "6 + int i * 16 = int (6 + 16 * i)" by simp
  have sl: "slice data (6 + int i * 16) (6 + int i * 16 + 16)
            = Ok (take 16 (drop (6 + 16 * i) data))"
    unfolding off using assms by (simp add: slice_def del: of_nat_add of_nat_mult)
  have len: "length (take 16 (drop (6 + 16 * i) data)) = 16" using assms by simp
  show ?thesis
    unfolding sl bindO.simps parseICOEntry_16 [OF len]
    using assms by (simp add: entryAt_def le16_def le32_def Let_def add.commute)
qed

lemma scanEntry_step:
  assumes "6 + 16 * i + 16 \<le> length data"
  shows "scanEntry data i best =
     Ok (if surviving data (entryAt data i)
            \<and> (fst best = None \<or> snd best < resolution (entryAt data i))
         then (Some (entryAt data i), resolution (entryAt data i)) else best)"
  unfolding scanEntry_def Let_def parse_slot [OF assms]
  by (simp add: surviving_def not_less)

lemma find_append:
  "find P (xs @ ys) = (case find P xs of None \<Rightarrow> find P ys | Some x \<Rightarrow> Some x)"
  by (induction xs) simp_all

lemma resolution_pixelArea: "resolution e = pixelArea e"
  by (simp add: resolution_def getActualWidth_def getActualHeight_def pixelArea_def
        actual_def)

lemma maximal_exists:
  assumes "es \<noteq> []"
  shows "\<exists>b \<in> set es. \<forall>e' \<in> set es. pixelArea e' \<le> pixelArea b"
proof -
  let ?R = "pixelArea ` set es"
  have fin: "finite ?R" and ne: "?R \<noteq> {}" using assms by simp_all
  from Max_in [OF fin ne] obtain b where b: "b \<in> set es" "pixelArea b = Max ?R" by auto
  have "\<forall>e' \<in> set es. pixelArea e' \<le> pixelArea b"
    using Max_ge [OF fin] b(2) by simp
  with b(1) show ?thesis by blast
qed

lemma firstMaximal_None_iff: "firstMaximal es = None \<longleftrightarrow> es = []"
proof
  assume n: "firstMaximal es = None"
  show "es = []"
  proof (rule ccontr)
    assume "es \<noteq> []"
    from maximal_exists [OF this] n show False
      by (auto simp: firstMaximal_def find_None_iff)
  qed
next
  assume "es = []"
  then show "firstMaximal es = None" by (simp add: firstMaximal_def)
qed

lemma firstMaximal_Some:
  assumes "firstMaximal es = Some b"
  shows "b \<in> set es" and "\<forall>e' \<in> set es. pixelArea e' \<le> pixelArea b"
  using assms by (auto simp: firstMaximal_def find_Some_iff)

lemma firstMaximal_snoc:
  "firstMaximal (es @ [e]) =
     (case firstMaximal es of
        None \<Rightarrow> Some e
      | Some b \<Rightarrow> if pixelArea b < pixelArea e then Some e else Some b)"
proof (cases "firstMaximal es")
  case None
  then have "es = []" by (simp add: firstMaximal_None_iff)
  then show ?thesis by (simp add: firstMaximal_def)
next
  case (Some b)
  note b = firstMaximal_Some [OF Some]
  show ?thesis
  proof (cases "pixelArea b < pixelArea e")
    case True
    have "find (\<lambda>x. \<forall>e' \<in> set (es @ [e]). pixelArea e' \<le> pixelArea x) es = None"
      using b(2) True by (fastforce simp: find_None_iff)
    moreover have "\<forall>e' \<in> set (es @ [e]). pixelArea e' \<le> pixelArea e"
      using b(2) True by fastforce
    ultimately show ?thesis
      using Some True by (simp add: firstMaximal_def find_append)
  next
    case False
    have "find (\<lambda>x. \<forall>e' \<in> set (es @ [e]). pixelArea e' \<le> pixelArea x) es
          = find (\<lambda>x. \<forall>e' \<in> set es. pixelArea e' \<le> pixelArea x) es"
    proof (rule find_cong [OF refl])
      fix x assume "x \<in> set es"
      show "(\<forall>e' \<in> set (es @ [e]). pixelArea e' \<le> pixelArea x)
            = (\<forall>e' \<in> set es. pixelArea e' \<le> pixelArea x)"
        using b(1) False by fastforce
    qed
    then show ?thesis
      using Some False by (simp add: firstMaximal_def find_append)
  qed
qed

lemma scan_loop:
  assumes "6 + 16 * n \<le> length data"
  shows "forEach [0..<n] (scanEntry data) (None, 0) =
     Ok (firstMaximal (filter (surviving data) (map (entryAt data) [0..<n])),
         (case firstMaximal (filter (surviving data) (map (entryAt data) [0..<n])) of
            None \<Rightarrow> 0 | Some b \<Rightarrow> pixelArea b))"
  using assms
proof (induction n)
  case 0
  show ?case by (simp add: firstMaximal_def)
next
  case (Suc n)
  have slot: "6 + 16 * n + 16 \<le> length data" using Suc.prems by simp
  have prev: "6 + 16 * n \<le> length data" using Suc.prems by simp
  show ?case
  proof (cases "surviving data (entryAt data n)")
    case False
    then show ?thesis
      using Suc.IH [OF prev] by (simp add: forEach_append scanEntry_step [OF slot])
  next
    case True
    show ?thesis
    proof (cases "firstMaximal (filter (surviving data) (map (entryAt data) [0..<n]))")
      case None
      then show ?thesis
        using Suc.IH [OF prev] True
        by (simp add: forEach_append scanEntry_step [OF slot] firstMaximal_snoc
              resolution_pixelArea)
    next
      case (Some b)
      then show ?thesis
        using Suc.IH [OF prev] True
        by (simp add: forEach_append scanEntry_step [OF slot] firstMaximal_snoc
              resolution_pixelArea)
    qed
  qed
qed

lemma decodeICO_parsed:
  assumes "6 \<le> length data" and "le16 data 0 = 0" and "le16 data 2 = 1"
    and "le16 data 4 \<noteq> 0" and "6 + 16 * unat (le16 data 4) \<le> length data"
  shows "decodeICO png data =
     (case firstMaximal (filter (surviving data) (directory data)) of
        None \<Rightarrow> Err NoValidEntries
      | Some best \<Rightarrow>
          bindO (slice data (uint (Offset best)) (uint (Offset best + Size best)))
            (\<lambda>imageData. decodeICOImage png imageData best))"
proof -
  have dir: "\<not> int (length data) < 6 + uint (le16 data 4) * 16"
    using assms(5) unfolding unat_eq_nat_uint by arith
  show ?thesis
    using assms(1-4) dir
    by (simp add: decodeICO_def read16 Let_def scan_loop [OF assms(5)] directory_def)
qed






section \<open>Malformed headers\<close>


lemma decodeICOBMP_Err:
  assumes "decodeICOBMP data entry = Err e"
  shows "\<not> MalformedHeader e"
proof (cases "length data < 40")
  case True
  then show ?thesis using assms by (simp add: decodeICOBMP_def)
next
  case False
  then have len: "40 \<le> length data" by simp
  show ?thesis
    using assms unfolding decodeICOBMP_parsed [OF len]
    by (auto simp: bindO_Err_iff NewRGBA_not_Err split: if_splits
             dest: readPalette_Err decodeByDepth_Err)
qed

lemma decodeICOImage_Err:
  assumes "decodeICOImage png data entry = Err e"
  shows "\<not> MalformedHeader e"
  using assms
  by (auto simp: decodeICOImage_def split: if_splits option.splits dest: decodeICOBMP_Err)

lemma slice_not_Err: "slice s lo hi \<noteq> Err e"
  by (simp add: slice_def)

lemma decodeICO_short_directory:
  assumes "6 \<le> length data" and "le16 data 0 = 0" and "le16 data 2 = 1"
    and "le16 data 4 \<noteq> 0" and "length data < 6 + 16 * unat (le16 data 4)"
  shows "decodeICO png data = Err TruncatedDirectory"
proof -
  have "0 \<le> uint (le16 data 4)" by simp
  then have dir: "int (length data) < 6 + uint (le16 data 4) * 16"
    using assms(5) unfolding unat_eq_nat_uint by arith
  show ?thesis
    using assms(1-4) dir by (simp add: decodeICO_def read16 Let_def)
qed

lemma decodeICO_valid_header_Err:
  assumes "6 \<le> length data" and "le16 data 0 = 0" and "le16 data 2 = 1"
    and "le16 data 4 \<noteq> 0" and "decodeICO png data = Err e"
  shows "\<not> MalformedHeader e"
proof (cases "length data < 6 + 16 * unat (le16 data 4)")
  case True
  from decodeICO_short_directory [OF assms(1-4) True] assms(5) show ?thesis by auto
next
  case False
  then have fits: "6 + 16 * unat (le16 data 4) \<le> length data" by simp
  show ?thesis
    using assms(5) unfolding decodeICO_parsed [OF assms(1-4) fits]
    by (auto simp: bindO_Err_iff slice_not_Err split: option.splits dest: decodeICOImage_Err)
qed

lemma decodeICO_malformed:
  assumes "length data < 6 \<or> le16 data 0 \<noteq> 0 \<or> le16 data 2 \<noteq> 1 \<or> le16 data 4 = 0"
  shows "\<exists>e. decodeICO png data = Err e \<and> MalformedHeader e"
proof (cases "length data < 6")
  case True
  then show ?thesis by (simp add: decodeICO_def)
next
  case False
  then have "6 \<le> length data" by simp
  then show ?thesis
    using assms by (auto simp: decodeICO_def read16 Let_def)
qed

text \<open>
  Claim C6. \<open>decodeICO\<close> fails with an error of the kind \<open>MalformedHeader\<close> exactly
  when the buffer is shorter than 6 bytes, or the little-endian reserved field is not 0,
  or the type field is not 1 (a CUR file has type 2), or the count is 0; and then no
  image is returned.
\<close>

theorem malformed_header_iff:
  "((\<exists>e. decodeICO png data = Err e \<and> MalformedHeader e)
      \<longleftrightarrow> length data < 6 \<or> le16 data 0 \<noteq> 0 \<or> le16 data 2 \<noteq> 1 \<or> le16 data 4 = 0)
   \<and> (length data < 6 \<or> le16 data 0 \<noteq> 0 \<or> le16 data 2 \<noteq> 1 \<or> le16 data 4 = 0
        \<longrightarrow> (\<forall>img. decodeICO png data \<noteq> Ok img))"
proof (intro conjI iffI impI)
  assume "\<exists>e. decodeICO png data = Err e \<and> MalformedHeader e"
  then obtain e where e: "decodeICO png data = Err e" "MalformedHeader e" by blast
  show "length data < 6 \<or> le16 data 0 \<noteq> 0 \<or> le16 data 2 \<noteq> 1 \<or> le16 data 4 = 0"
  proof (rule ccontr)
    assume "\<not> (length data < 6 \<or> le16 data 0 \<noteq> 0 \<or> le16 data 2 \<noteq> 1 \<or> le16 data 4 = 0)"
    then have "6 \<le> length data" "le16 data 0 = 0" "le16 data 2 = 1" "le16 data 4 \<noteq> 0"
      by simp_all
    from decodeICO_valid_header_Err [OF this e(1)] e(2) show False by simp
  qed
next
  assume "length data < 6 \<or> le16 data 0 \<noteq> 0 \<or> le16 data 2 \<noteq> 1 \<or> le16 data 4 = 0"
  then show "\<exists>e. decodeICO png data = Err e \<and> MalformedHeader e"
    by (rule decodeICO_malformed)
next
  assume "length data < 6 \<or> le16 data 0 \<noteq> 0 \<or> le16 data 2 \<noteq> 1 \<or> le16 data 4 = 0"
  from decodeICO_malformed [OF this, of png]
  show "\<forall>img. decodeICO png data \<noteq> Ok img" by auto
qed

theorem malformed_header_iff_witness:
  "decodeICO (\<lambda>d. None) [0, 0, 2, 0, 1, 0] = Err (TypeNotICO 2)
   \<and> MalformedHeader (TypeNotICO 2)
   \<and> (\<forall>img. decodeICO (\<lambda>d. None) [0, 0, 2, 0, 1, 0] \<noteq> Ok img)"
proof -
  have c: "length [0, 0, 2, 0, 1, 0 :: byte] < 6 \<or> le16 [0, 0, 2, 0, 1, 0] 0 \<noteq> 0
           \<or> le16 [0, 0, 2, 0, 1, 0] 2 \<noteq> 1 \<or> le16 [0, 0, 2, 0, 1, 0] 4 = 0"
    by (simp add: le16_def)
  from malformed_header_iff [of "\<lambda>d. None" "[0, 0, 2, 0, 1, 0]", THEN conjunct2, rule_format, OF c]
  have "\<forall>img. decodeICO (\<lambda>d. None) [0, 0, 2, 0, 1, 0] \<noteq> Ok img" by simp
  moreover have "decodeICO (\<lambda>d. None) [0, 0, 2, 0, 1, 0] = Err (TypeNotICO 2)"
    by (simp add: decodeICO_def slice_def Uint16_def)
  ultimately show ?thesis by simp
qed


section \<open>Declared dimensions\<close>


lemma uint_pos: "w \<noteq> 0 \<Longrightarrow> 0 < uint w"
proof -
  assume "w \<noteq> 0"
  then have "uint w \<noteq> 0" by (simp add: uint_0_iff)
  moreover have "0 \<le> uint w" by simp
  ultimately show ?thesis by linarith
qed

lemma getActualWidth_pos: "0 < getActualWidth e"
  by (simp add: getActualWidth_def uint_pos)

lemma getActualHeight_pos: "0 < getActualHeight e"
  by (simp add: getActualHeight_def uint_pos)

text \<open>
  Claim C7. A declared width or height byte of 0 stands for 256: \<open>getActualWidth\<close>,
  \<open>getActualHeight\<close> and the resolution are computed with that substitution; the
  directory loop compares a surviving entry with the best one so far by that
  resolution; and when the header of the embedded bitmap reports a width or a height of
  0, the decoded image has the substituted declared width or height.
\<close>

theorem zero_means_256:
  "getActualWidth e = (if Width e = 0 then 256 else uint (Width e))
   \<and> getActualHeight e = (if Height e = 0 then 256 else uint (Height e))
   \<and> resolution e = (if Width e = 0 then 256 else uint (Width e))
                     * (if Height e = 0 then 256 else uint (Height e))
   \<and> (6 + 16 * i + 16 \<le> length data \<and> surviving data (entryAt data i)
        \<longrightarrow> scanEntry data i (Some b, r)
            = Ok (if r < resolution (entryAt data i)
                  then (Some (entryAt data i), resolution (entryAt data i))
                  else (Some b, r)))
   \<and> (decodeICOBMP dib e = Ok img \<and> le32 dib 4 = 0
        \<longrightarrow> MinX (Bounds img) = 0 \<and> MaxX (Bounds img) = getActualWidth e)
   \<and> (decodeICOBMP dib e = Ok img \<and> le32 dib 8 = 0
        \<longrightarrow> MinY (Bounds img) = 0 \<and> MaxY (Bounds img) = getActualHeight e)"
proof -
  have c1: "getActualWidth e = (if Width e = 0 then 256 else uint (Width e))"
    by (simp add: getActualWidth_def)
  have c2: "getActualHeight e = (if Height e = 0 then 256 else uint (Height e))"
    by (simp add: getActualHeight_def)
  have c3: "resolution e = (if Width e = 0 then 256 else uint (Width e))
                     * (if Height e = 0 then 256 else uint (Height e))"
    by (simp add: resolution_def getActualWidth_def getActualHeight_def)
  have c4: "6 + 16 * i + 16 \<le> length data \<and> surviving data (entryAt data i)
        \<longrightarrow> scanEntry data i (Some b, r)
            = Ok (if r < resolution (entryAt data i)
                  then (Some (entryAt data i), resolution (entryAt data i))
                  else (Some b, r))"
    by (simp add: scanEntry_step)
  have c5: "decodeICOBMP dib e = Ok img \<and> le32 dib 4 = 0
        \<longrightarrow> MinX (Bounds img) = 0 \<and> MaxX (Bounds img) = getActualWidth e"
    using decodeICOBMP_Bounds [of dib e img] getActualWidth_pos [of e]
    by (auto simp add: Rect_def)
  have c6: "decodeICOBMP dib e = Ok img \<and> le32 dib 8 = 0
        \<longrightarrow> MinY (Bounds img) = 0 \<and> MaxY (Bounds img) = getActualHeight e"
    using decodeICOBMP_Bounds [of dib e img] getActualHeight_pos [of e]
    by (auto simp add: Rect_def)
  from c1 c2 c3 c4 c5 c6 show ?thesis by (intro conjI)
qed

theorem zero_means_256_witness:
  "\<exists>img. decodeICOBMP
       [40, 0, 0, 0,  0, 0, 0, 0,  0, 0, 0, 0,  1, 0,  32, 0,  0, 0, 0, 0,
        0, 0, 0, 0,  0, 0, 0, 0,  0, 0, 0, 0,  0, 0, 0, 0,  0, 0, 0, 0]
       \<lparr>Width = 0, Height = 0, ColorCount = 0, Reserved = 0, Planes = 1, BitCount = 32,
        Size = 40, Offset = 22\<rparr> = Ok img
     \<and> MinX (Bounds img) = 0 \<and> MaxX (Bounds img) = 256
     \<and> MinY (Bounds img) = 0 \<and> MaxY (Bounds img) = 256"
proof -
  let ?dib = "[40, 0, 0, 0,  0, 0, 0, 0,  0, 0, 0, 0,  1, 0,  32, 0,  0, 0, 0, 0,
        0, 0, 0, 0,  0, 0, 0, 0,  0, 0, 0, 0,  0, 0, 0, 0,  0, 0, 0, 0] :: byte list"
  let ?e = "\<lparr>Width = 0, Height = 0, ColorCount = 0, Reserved = 0, Planes = 1, BitCount = 32,
        Size = 40, Offset = 22\<rparr>"
  have f: "le32 ?dib 0 = 40" "le32 ?dib 4 = 0" "le32 ?dib 8 = 0" "le16 ?dib 14 = 32"
    "le32 ?dib 16 = 0"
    by (simp_all add: le16_def le32_def)
  obtain img where d: "decodeICOBMP32 (blankRGBA (Rect 0 0 256 256)) [] 256 256 = Ok img"
    using decodeICOBMP32_total by blast
  have dw: "dibWidth ?dib ?e = 256" "dibHeight ?dib ?e = 256"
    by (simp_all add: dibWidth_def dibHeight_def f getActualWidth_def getActualHeight_def)
  have new: "NewRGBA (Rect 0 0 256 256) = Ok (blankRGBA (Rect 0 0 256 256))"
    by (simp add: NewRGBA_def Rect_def Dx_def Dy_def mul3NonNeg_def maxAlloc_def Let_def)
  have ok: "decodeICOBMP ?dib ?e = Ok img"
    using d
    by (simp add: decodeICOBMP_parsed f dw new readPalette_def decodeByDepth_def
          sliceFrom_def slice_def)
  from zero_means_256 [of ?e _ _ _ _ ?dib img] ok f
  have "MinX (Bounds img) = 0 \<and> MaxX (Bounds img) = getActualWidth ?e"
    and "MinY (Bounds img) = 0 \<and> MaxY (Bounds img) = getActualHeight ?e"
    by simp_all
  then show ?thesis using ok by (auto simp: getActualWidth_def getActualHeight_def)
qed


section \<open>Truncated pixel rows\<close>





section \<open>Panics of the decoder\<close>

text \<open>
  Claim C1 says that \<open>decodeICO\<close>, with the dispatch and the bitmap decoder it calls,
  returns an image or an error for every buffer, never panics and never slices the
  buffer at an offset past its length, for any \<open>headerSize\<close> and any bit depth. The
  decoder compares the pixel offset with the length of the entry's bytes on the palette
  path only (bit counts up to 8). At 24 and 32 bits the pixel offset is \<open>headerSize\<close>
  as read, and \<open>data[pixelOffset:]\<close> panics when it exceeds the length. The buffer
  below is a single-entry ICO whose 40-byte bitmap declares a header of 124 bytes and
  32 bits per pixel.
\<close>

theorem decodeICO_slices_past_length:
  "decodeICO png
     [0, 0, 1, 0, 1, 0,
      1, 1, 0, 0, 1, 0, 32, 0, 40, 0, 0, 0, 22, 0, 0, 0,
      124, 0, 0, 0,  1, 0, 0, 0,  2, 0, 0, 0,  1, 0,  32, 0,  0, 0, 0, 0,
      0, 0, 0, 0,  0, 0, 0, 0,  0, 0, 0, 0,  0, 0, 0, 0,  0, 0, 0, 0]
   = Panic"
  by (simp add: decodeICO_def slice_def Uint16_def Uint32_def scanEntry_def
        parseICOEntry_def index_def resolution_def getActualWidth_def getActualHeight_def
        decodeICOImage_def HasPrefix_def magicPNG_def decodeICOBMP_def readPalette_def
        NewRGBA_def Rect_def Dx_def Dy_def mul3NonNeg_def maxAlloc_def
        decodeByDepth_def sliceFrom_def Let_def)

text \<open>
  Two more panics on the same path, both in \<open>image.NewRGBA\<close>, which \<open>decodeICOBMP\<close> calls
  with the dimensions of the header before it looks at the bit count: a width of
  \<open>0x7FFFFFFF\<close> with a height field of \<open>0x7FFFFFFE\<close> asks for more than \<open>maxAlloc\<close>
  bytes, and a width and a height field of \<open>0x80000000\<close> overflow the buffer length.
\<close>

lemma decodeICOBMP_huge_dimensions:
  "decodeICOBMP
     [40, 0, 0, 0,  0xFF, 0xFF, 0xFF, 0x7F,  0xFE, 0xFF, 0xFF, 0x7F,  1, 0,  16, 0,
      0, 0, 0, 0,  0, 0, 0, 0,  0, 0, 0, 0,  0, 0, 0, 0,  0, 0, 0, 0,  0, 0, 0, 0]
     \<lparr>Width = 1, Height = 1, ColorCount = 0, Reserved = 0, Planes = 1, BitCount = 16,
      Size = 40, Offset = 22\<rparr>
   = Panic"
  by (simp add: decodeICOBMP_def slice_def Uint16_def Uint32_def readPalette_def
        NewRGBA_def Rect_def Dx_def Dy_def mul3NonNeg_def maxAlloc_def Let_def
        signed_divide_int_def)

lemma decodeICOBMP_negative_dimensions:
  "decodeICOBMP
     [40, 0, 0, 0,  0, 0, 0, 0x80,  0, 0, 0, 0x80,  1, 0,  32, 0,
      0, 0, 0, 0,  0, 0, 0, 0,  0, 0, 0, 0,  0, 0, 0, 0,  0, 0, 0, 0,  0, 0, 0, 0]
     \<lparr>Width = 1, Height = 1, ColorCount = 0, Reserved = 0, Planes = 1, BitCount = 32,
      Size = 40, Offset = 22\<rparr>
   = Panic"
  by (simp add: decodeICOBMP_def slice_def Uint16_def Uint32_def readPalette_def
        NewRGBA_def Rect_def Dx_def Dy_def mul3NonNeg_def maxAlloc_def Let_def
        signed_divide_int_def)

section \<open>Path resolution\<close>

text \<open>
  Claim C8. For a path \<open>p\<close> that does not start with \<open>/\<close> and a base \<open>b\<close> that is not
  empty, \<open>resolveFilePath\<close> of \<open>file://\<close> followed by \<open>p\<close> succeeds with the platform's
  join of \<open>b\<close> and \<open>p\<close>, to which \<open>p\<close> is handed as it is, \<open>./\<close> and \<open>../\<close> segments
  included. For a path \<open>p\<close> that starts with \<open>/\<close> it returns \<open>p\<close> unchanged, for every base
  and the empty one too.
\<close>

theorem resolveFilePath_resolves:
  "(take 1 p \<noteq> ''/'' \<and> b \<noteq> []
      \<longrightarrow> resolveFilePath join (''file://'' @ p) b = Inr (join b p))
   \<and> (take 1 p = ''/'' \<longrightarrow> resolveFilePath join (''file://'' @ p) b = Inr p)"
  by (simp add: resolveFilePath_def TrimPrefix_def Let_def)

theorem resolveFilePath_resolves_witness:
  "resolveFilePath (\<lambda>b p. b @ ''/'' @ p) ''file://../shared/icon.png'' ''/home/user/project''
     = Inr ''/home/user/project/../shared/icon.png''
   \<and> resolveFilePath (\<lambda>b p. b @ ''/'' @ p) ''file:///absolute/path/icon.png'' []
     = Inr ''/absolute/path/icon.png''"
  using resolveFilePath_resolves
      [of "''../shared/icon.png''" "''/home/user/project''" "\<lambda>b p. b @ ''/'' @ p"]
    resolveFilePath_resolves [of "''/absolute/path/icon.png''" "[]" "\<lambda>b p. b @ ''/'' @ p"]
  by simp

text \<open>
  Claim C9. For a path \<open>p\<close> that is not empty and does not start with \<open>/\<close>, and the
  empty base path, \<open>resolveFilePath\<close> of \<open>file://\<close> followed by \<open>p\<close> fails with
  \<open>BasePathRequired\<close>, with a message that contains
  \<open>relative path requires base path\<close>; it returns no resolved path.
\<close>

theorem resolveFilePath_requires_base:
  "p \<noteq> [] \<and> take 1 p \<noteq> ''/'' \<longrightarrow>
     (\<exists>msg. resolveFilePath join (''file://'' @ p) [] = Inl (BasePathRequired msg)
            \<and> Contains msg ''relative path requires base path'')
     \<and> (\<forall>r. resolveFilePath join (''file://'' @ p) [] \<noteq> Inr r)"
proof -
  have "Contains ''relative path requires base path'' ''relative path requires base path''"
    unfolding Contains_def by (rule bexI [of _ 0]) simp_all
  then show ?thesis
    by (simp add: resolveFilePath_def TrimPrefix_def Let_def)
qed

theorem resolveFilePath_requires_base_witness:
  "(\<exists>msg. resolveFilePath (\<lambda>b p. b @ ''/'' @ p) ''file://icon.png'' []
            = Inl (BasePathRequired msg)
          \<and> Contains msg ''relative path requires base path'')
   \<and> (\<forall>r. resolveFilePath (\<lambda>b p. b @ ''/'' @ p) ''file://icon.png'' [] \<noteq> Inr r)"
  using resolveFilePath_requires_base [of "''icon.png''" "\<lambda>b p. b @ ''/'' @ p"]
  by simp

end
